theory Spec2Isabelle
  imports Complex_Main "HOL-Library.Word"
begin

section \<open>Data model (src/src/main.cpp)\<close>

text \<open>
  A finite C++ \<^verbatim>\<open>float\<close> is modelled by the real number it denotes; infinities and
  NaN have no model. In \<^verbatim>\<open>generateCity\<close> the arithmetic on colours is exact and a
  literal such as \<^verbatim>\<open>0.1f\<close> denotes the decimal it is written as. In
  \<^verbatim>\<open>createBuildingBuffers\<close> every float operation and every inexact literal goes
  through a rounding function \<open>rnd\<close>, a parameter of the model: the result of an
  operation is the rounding of the exact result. Single precision is one such function,
  \<open>no_rounding\<close> is exact arithmetic. \<^verbatim>\<open>unsigned int\<close> is a
  32-bit word, so index arithmetic wraps around. The length of a \<^verbatim>\<open>std::vector\<close>
  (\<^verbatim>\<open>size_t\<close>) is the length of a list. The loop counter and the argument
  \<^verbatim>\<open>numBuildings\<close> of \<^verbatim>\<open>generateCity\<close> are \<^verbatim>\<open>int\<close>; the counter never goes
  past \<^verbatim>\<open>numBuildings\<close>, so it cannot overflow and is modelled by a mathematical
  integer.
\<close>

type_synonym u32 = "32 word"

text \<open>\<^verbatim>\<open>glm::vec3\<close>: the members r, g, b are other names of x, y, z.\<close>

datatype vec3 = Vec3 (vec_x: real) (vec_y: real) (vec_z: real)

abbreviation vec_r :: "vec3 \<Rightarrow> real" where "vec_r \<equiv> vec_x"
abbreviation vec_g :: "vec3 \<Rightarrow> real" where "vec_g \<equiv> vec_y"
abbreviation vec_b :: "vec3 \<Rightarrow> real" where "vec_b \<equiv> vec_z"

record Building =
  position :: vec3
  width :: real
  depth :: real
  height :: real
  color :: vec3

section \<open>The random source\<close>

text \<open>
  A \<^verbatim>\<open>std::uniform_real_distribution<float>\<close> is the pair of its bounds. Calling it
  on the generator reads a value and advances the generator: the call is the parameter
  \<open>sample\<close>, of type \<open>'g sampler\<close>, where \<open>'g\<close> is the state of \<^verbatim>\<open>std::mt19937\<close>.
\<close>

type_synonym uniform_real_distribution = "real \<times> real"
type_synonym 'g sampler = "uniform_real_distribution \<Rightarrow> 'g \<Rightarrow> real \<times> 'g"

definition posDistX :: uniform_real_distribution where "posDistX = (-100, 100)"
definition posDistZ :: uniform_real_distribution where "posDistZ = (-100, 100)"
definition sizeDistWidth :: uniform_real_distribution where "sizeDistWidth = (5, 15)"
definition sizeDistDepth :: uniform_real_distribution where "sizeDistDepth = (5, 15)"
definition heightDist :: uniform_real_distribution where "heightDist = (10, 60)"
definition colorDist :: uniform_real_distribution where "colorDist = (0.2, 0.8)"

text \<open>
  The six distributions of \<^verbatim>\<open>generateCity\<close>, and the assumption on the random source:
  every draw from one of them lies between its bounds.
\<close>

definition distributions :: "uniform_real_distribution list" where
  "distributions = [posDistX, posDistZ, sizeDistWidth, sizeDistDepth, heightDist, colorDist]"

definition draws_in_range :: "'g sampler \<Rightarrow> bool" where
  "draws_in_range sample \<longleftrightarrow>
     (\<forall>d \<in> set distributions. \<forall>g. fst d \<le> fst (sample d g) \<and> fst (sample d g) \<le> snd d)"

text \<open>
  A concrete random source for running the model: the state is a counter, and the
  draws walk through the quarter points of the interval, the two ends included.
\<close>

definition quarter_sample :: "nat sampler" where
  "quarter_sample d g = (fst d + (snd d - fst d) * (real (g mod 5) / 4), Suc g)"

section \<open>generateCity\<close>

text \<open>
  The body of the \<^verbatim>\<open>for\<close> loop of \<^verbatim>\<open>generateCity\<close> at counter \<open>i\<close>: it returns the
  building that is pushed and the generator after the eight draws. The draws inside one
  \<^verbatim>\<open>glm::vec3(...)\<close> are taken in the order they are written (C++ leaves the order of
  the arguments to the compiler; the properties below use nothing of a draw but the
  bounds of its distribution). \<^verbatim>\<open>i % 5 == 0\<close> holds exactly when 5 divides \<open>i\<close>, also
  for the truncating remainder of C++.
\<close>

definition generateCity_body :: "'g sampler \<Rightarrow> int \<Rightarrow> 'g \<Rightarrow> Building \<times> 'g" where
  "generateCity_body sample i rng =
    (let (px, rng) = sample posDistX rng;
         (pz, rng) = sample posDistZ rng;
         (w, rng) = sample sizeDistWidth rng;
         (d, rng) = sample sizeDistDepth rng;
         (h, rng) = sample heightDist rng;
         (c1, rng) = sample colorDist rng;
         (c2, rng) = sample colorDist rng;
         (c3, rng) = sample colorDist rng;
         col = (if i mod 5 = 0
                then Vec3 (c1 * 0.5 + 0.5) (c2 * 0.5 + 0.5) (c3 * 0.5 + 0.5)
                else Vec3 (c1 * 0.3) (c2 * 0.3) (c3 * 0.5 + 0.3))
     in (\<lparr>position = Vec3 px 0 pz, width = w, depth = d, height = h, color = col\<rparr>, rng))"

function generateCity_loop ::
  "'g sampler \<Rightarrow> int \<Rightarrow> int \<Rightarrow> 'g \<Rightarrow> Building list \<Rightarrow> Building list \<times> 'g" where
  "generateCity_loop sample numBuildings i rng buildings =
    (if i < numBuildings
     then let br = generateCity_body sample i rng
          in generateCity_loop sample numBuildings (i + 1) (snd br) (buildings @ [fst br])
     else (buildings, rng))"
  by pat_completeness auto
termination
  by (relation "measure (\<lambda>(sample, numBuildings, i, rng, buildings). nat (numBuildings - i))") auto

definition ground :: Building where
  "ground = \<lparr>position = Vec3 0 (-0.5) 0, width = 250, depth = 250, height = 1,
             color = Vec3 0.1 0.1 0.1\<rparr>"

text \<open>
  \<open>generateCity_rng\<close> returns the vector and the generator at the end of the function;
  \<open>generateCity\<close> is the effect on the caller's vector. \<open>rng\<close> is the generator as
  seeded from the clock.
\<close>

definition generateCity_rng ::
  "'g sampler \<Rightarrow> 'g \<Rightarrow> Building list \<Rightarrow> int \<Rightarrow> Building list \<times> 'g" where
  "generateCity_rng sample rng buildings numBuildings =
    (let (buildings, rng) = generateCity_loop sample numBuildings 0 rng buildings
     in (buildings @ [ground], rng))"

definition generateCity :: "'g sampler \<Rightarrow> 'g \<Rightarrow> Building list \<Rightarrow> int \<Rightarrow> Building list" where
  "generateCity sample rng buildings numBuildings =
     fst (generateCity_rng sample rng buildings numBuildings)"

section \<open>createBuildingBuffers\<close>

text \<open>
  The body of the \<^verbatim>\<open>for\<close> loop of \<^verbatim>\<open>createBuildingBuffers\<close> for the building \<open>b\<close>:
  48 floats pushed on \<open>vertices\<close>, then 36 indices pushed on \<open>indices\<close>. Each
  division, subtraction and addition of floats is rounded by \<open>rnd\<close>, and so is the
  literal \<^verbatim>\<open>0.1f\<close>; \<^verbatim>\<open>2.0f\<close> is exact. \<open>baseIndex\<close> is the \<^verbatim>\<open>size_t\<close> quotient
  converted to \<^verbatim>\<open>unsigned int\<close>.
\<close>

definition no_rounding :: "real \<Rightarrow> real" where
  "no_rounding x = x"

definition createBuildingBuffers_body ::
  "(real \<Rightarrow> real) \<Rightarrow> Building \<Rightarrow> real list \<Rightarrow> u32 list \<Rightarrow> real list \<times> u32 list" where
  "createBuildingBuffers_body rnd b vertices indices =
    (let hw = rnd (width b / 2);
         hh = rnd (height b / 2);
         hd = rnd (depth b / 2);
         baseIndex = (of_nat (length vertices div 6) :: u32);
         vertices = vertices
           @ [rnd (vec_x (position b) - hw), rnd (vec_y (position b) - hh),
              rnd (vec_z (position b) + hd)]
           @ [vec_r (color b), vec_g (color b), vec_b (color b)]
           @ [rnd (vec_x (position b) + hw), rnd (vec_y (position b) - hh),
              rnd (vec_z (position b) + hd)]
           @ [vec_r (color b), vec_g (color b), vec_b (color b)]
           @ [rnd (vec_x (position b) + hw), rnd (vec_y (position b) - hh),
              rnd (vec_z (position b) - hd)]
           @ [vec_r (color b), vec_g (color b), vec_b (color b)]
           @ [rnd (vec_x (position b) - hw), rnd (vec_y (position b) - hh),
              rnd (vec_z (position b) - hd)]
           @ [vec_r (color b), vec_g (color b), vec_b (color b)]
           @ [rnd (vec_x (position b) - hw), rnd (vec_y (position b) + hh),
              rnd (vec_z (position b) + hd)]
           @ [rnd (vec_r (color b) + rnd 0.1), rnd (vec_g (color b) + rnd 0.1),
              rnd (vec_b (color b) + rnd 0.1)]
           @ [rnd (vec_x (position b) + hw), rnd (vec_y (position b) + hh),
              rnd (vec_z (position b) + hd)]
           @ [rnd (vec_r (color b) + rnd 0.1), rnd (vec_g (color b) + rnd 0.1),
              rnd (vec_b (color b) + rnd 0.1)]
           @ [rnd (vec_x (position b) + hw), rnd (vec_y (position b) + hh),
              rnd (vec_z (position b) - hd)]
           @ [rnd (vec_r (color b) + rnd 0.1), rnd (vec_g (color b) + rnd 0.1),
              rnd (vec_b (color b) + rnd 0.1)]
           @ [rnd (vec_x (position b) - hw), rnd (vec_y (position b) + hh),
              rnd (vec_z (position b) - hd)]
           @ [rnd (vec_r (color b) + rnd 0.1), rnd (vec_g (color b) + rnd 0.1),
              rnd (vec_b (color b) + rnd 0.1)];
         indices = indices
           @ [baseIndex + 0, baseIndex + 1, baseIndex + 2]
           @ [baseIndex + 2, baseIndex + 3, baseIndex + 0]
           @ [baseIndex + 4, baseIndex + 7, baseIndex + 6]
           @ [baseIndex + 6, baseIndex + 5, baseIndex + 4]
           @ [baseIndex + 0, baseIndex + 4, baseIndex + 5]
           @ [baseIndex + 5, baseIndex + 1, baseIndex + 0]
           @ [baseIndex + 1, baseIndex + 5, baseIndex + 6]
           @ [baseIndex + 6, baseIndex + 2, baseIndex + 1]
           @ [baseIndex + 2, baseIndex + 6, baseIndex + 7]
           @ [baseIndex + 7, baseIndex + 3, baseIndex + 2]
           @ [baseIndex + 3, baseIndex + 7, baseIndex + 4]
           @ [baseIndex + 4, baseIndex + 0, baseIndex + 3]
     in (vertices, indices))"

function createBuildingBuffers_loop ::
  "(real \<Rightarrow> real) \<Rightarrow> Building list \<Rightarrow> nat \<Rightarrow> real list \<Rightarrow> u32 list
     \<Rightarrow> real list \<times> u32 list" where
  "createBuildingBuffers_loop rnd buildings i vertices indices =
    (if i < length buildings
     then let vi = createBuildingBuffers_body rnd (buildings ! i) vertices indices
          in createBuildingBuffers_loop rnd buildings (i + 1) (fst vi) (snd vi)
     else (vertices, indices))"
  by pat_completeness auto
termination
  by (relation "measure (\<lambda>(rnd, buildings, i, vertices, indices). length buildings - i)") auto

definition createBuildingBuffers ::
  "(real \<Rightarrow> real) \<Rightarrow> Building list \<Rightarrow> real list \<Rightarrow> u32 list \<Rightarrow> real list \<times> u32 list" where
  "createBuildingBuffers rnd buildings vertices indices =
     createBuildingBuffers_loop rnd buildings 0 vertices indices"

section \<open>The mesh as the specification describes it\<close>

text \<open>
  The six faces in the order the specification lists them, each with its two triangles
  over the local vertex numbers 0 to 7.
\<close>

datatype face = Bottom | Top | Front | Right | Back | Left

definition faces :: "face list" where
  "faces = [Bottom, Top, Front, Right, Back, Left]"

fun face_triangles :: "face \<Rightarrow> (nat \<times> nat \<times> nat) list" where
  "face_triangles Bottom = [(0, 1, 2), (2, 3, 0)]"
| "face_triangles Top = [(4, 7, 6), (6, 5, 4)]"
| "face_triangles Front = [(0, 4, 5), (5, 1, 0)]"
| "face_triangles Right = [(1, 5, 6), (6, 2, 1)]"
| "face_triangles Back = [(2, 6, 7), (7, 3, 2)]"
| "face_triangles Left = [(3, 7, 4), (4, 0, 3)]"

text \<open>The 36 local vertex numbers, face by face, and the same list on a base index.\<close>

definition local_indices :: "nat list" where
  "local_indices = concat (map (\<lambda>(a, b, c). [a, b, c]) (concat (map face_triangles faces)))"

definition spec_indices :: "u32 \<Rightarrow> u32 list" where
  "spec_indices baseIndex = map (\<lambda>l. baseIndex + of_nat l) local_indices"

text \<open>
  The six coordinates of the box as it is emitted: left is \<open>x - width / 2\<close>, right
  \<open>x + width / 2\<close>; bottom is \<open>y - height / 2\<close>, top \<open>y + height / 2\<close>; back is
  \<open>z - depth / 2\<close>, front \<open>z + depth / 2\<close>, each operation rounded.
\<close>

definition box_left :: "(real \<Rightarrow> real) \<Rightarrow> Building \<Rightarrow> real" where
  "box_left rnd b = rnd (vec_x (position b) - rnd (width b / 2))"

definition box_right :: "(real \<Rightarrow> real) \<Rightarrow> Building \<Rightarrow> real" where
  "box_right rnd b = rnd (vec_x (position b) + rnd (width b / 2))"

definition box_bottom :: "(real \<Rightarrow> real) \<Rightarrow> Building \<Rightarrow> real" where
  "box_bottom rnd b = rnd (vec_y (position b) - rnd (height b / 2))"

definition box_top :: "(real \<Rightarrow> real) \<Rightarrow> Building \<Rightarrow> real" where
  "box_top rnd b = rnd (vec_y (position b) + rnd (height b / 2))"

definition box_back :: "(real \<Rightarrow> real) \<Rightarrow> Building \<Rightarrow> real" where
  "box_back rnd b = rnd (vec_z (position b) - rnd (depth b / 2))"

definition box_front :: "(real \<Rightarrow> real) \<Rightarrow> Building \<Rightarrow> real" where
  "box_front rnd b = rnd (vec_z (position b) + rnd (depth b / 2))"

text \<open>
  Vertex \<open>k\<close> of a box as the specification words it: 0 bottom front-left, 1 bottom
  front-right, 2 bottom back-right, 3 bottom back-left, 4 to 7 the same corners on top.
  A bottom vertex has the colour of the descriptor, a top vertex has 0.1 added to each
  channel.
\<close>

definition spec_vertex :: "(real \<Rightarrow> real) \<Rightarrow> Building \<Rightarrow> nat \<Rightarrow> real list" where
  "spec_vertex rnd b k =
    (let left = (k \<in> {0, 3, 4, 7}); front = (k \<in> {0, 1, 4, 5}); top = (4 \<le> k)
     in [if left then box_left rnd b else box_right rnd b,
         if top then box_top rnd b else box_bottom rnd b,
         if front then box_front rnd b else box_back rnd b,
         if top then rnd (vec_r (color b) + rnd 0.1) else vec_r (color b),
         if top then rnd (vec_g (color b) + rnd 0.1) else vec_g (color b),
         if top then rnd (vec_b (color b) + rnd 0.1) else vec_b (color b)])"

definition spec_box :: "(real \<Rightarrow> real) \<Rightarrow> Building \<Rightarrow> real list" where
  "spec_box rnd b = concat (map (spec_vertex rnd b) [0, 1, 2, 3, 4, 5, 6, 7])"

text \<open>
  The indices of a whole sequence of buildings when the vertex buffer holds \<open>n\<close> floats
  at the start: each building takes its base index from the floats before it.
\<close>

fun spec_all_indices :: "nat \<Rightarrow> Building list \<Rightarrow> u32 list" where
  "spec_all_indices n [] = []"
| "spec_all_indices n (b # bs) = spec_indices (of_nat (n div 6)) @ spec_all_indices (n + 48) bs"

text \<open>Vertex \<open>k\<close> of a vertex buffer: six floats from offset \<open>6 * k\<close>.\<close>

definition vertex_at :: "real list \<Rightarrow> nat \<Rightarrow> real list" where
  "vertex_at vertices k = take 6 (drop (6 * k) vertices)"

text \<open>The box of the specification's geometry check, with colour \<open>(r, g, b)\<close>.\<close>

definition box10 :: "real \<Rightarrow> real \<Rightarrow> real \<Rightarrow> Building" where
  "box10 r g b = \<lparr>position = Vec3 0 0 0, width = 10, depth = 10, height = 10, color = Vec3 r g b\<rparr>"

subsection \<open>Triangles and their normals\<close>

definition vsub :: "vec3 \<Rightarrow> vec3 \<Rightarrow> vec3" where
  "vsub a b = Vec3 (vec_x a - vec_x b) (vec_y a - vec_y b) (vec_z a - vec_z b)"

definition cross :: "vec3 \<Rightarrow> vec3 \<Rightarrow> vec3" where
  "cross a b = Vec3 (vec_y a * vec_z b - vec_z a * vec_y b)
                    (vec_z a * vec_x b - vec_x a * vec_z b)
                    (vec_x a * vec_y b - vec_y a * vec_x b)"

definition dot :: "vec3 \<Rightarrow> vec3 \<Rightarrow> real" where
  "dot a b = vec_x a * vec_x b + vec_y a * vec_y b + vec_z a * vec_z b"

definition smul :: "real \<Rightarrow> vec3 \<Rightarrow> vec3" where
  "smul s a = Vec3 (s * vec_x a) (s * vec_y a) (s * vec_z a)"

text \<open>The unit vector that points out of the box through a face.\<close>

fun outward :: "face \<Rightarrow> vec3" where
  "outward Bottom = Vec3 0 (-1) 0"
| "outward Top = Vec3 0 1 0"
| "outward Front = Vec3 0 0 1"
| "outward Right = Vec3 1 0 0"
| "outward Back = Vec3 0 0 (-1)"
| "outward Left = Vec3 (-1) 0 0"

text \<open>
  The position of vertex \<open>i\<close> of a vertex buffer; corner \<open>c\<close> of the triangle whose three
  indices start at place \<open>p\<close> of the index buffer; and the normal of that triangle: the
  cross product of its first edge with its second, in the order the indices were pushed,
  taken exactly on the coordinates the buffer holds.
\<close>

definition vertex_position :: "real list \<Rightarrow> nat \<Rightarrow> vec3" where
  "vertex_position vertices i =
     Vec3 (vertices ! (6 * i)) (vertices ! (6 * i + 1)) (vertices ! (6 * i + 2))"

definition triangle_corner :: "real list \<Rightarrow> u32 list \<Rightarrow> nat \<Rightarrow> nat \<Rightarrow> vec3" where
  "triangle_corner vertices indices p c = vertex_position vertices (unat (indices ! (p + c)))"

definition triangle_normal :: "real list \<Rightarrow> u32 list \<Rightarrow> nat \<Rightarrow> vec3" where
  "triangle_normal vertices indices p =
    (let a = triangle_corner vertices indices p 0;
         b = triangle_corner vertices indices p 1;
         c = triangle_corner vertices indices p 2
     in cross (vsub b a) (vsub c b))"

text \<open>
  The emitted box: its centre, the area of a face, and the distance of a face from the
  centre. In exact arithmetic the centre is the position of the descriptor and the
  extents are its width, height and depth.
\<close>

definition box_centre :: "(real \<Rightarrow> real) \<Rightarrow> Building \<Rightarrow> vec3" where
  "box_centre rnd b =
     Vec3 ((box_left rnd b + box_right rnd b) / 2) ((box_bottom rnd b + box_top rnd b) / 2)
          ((box_back rnd b + box_front rnd b) / 2)"

definition face_area :: "(real \<Rightarrow> real) \<Rightarrow> Building \<Rightarrow> face \<Rightarrow> real" where
  "face_area rnd b f =
    (let w = box_right rnd b - box_left rnd b;
         h = box_top rnd b - box_bottom rnd b;
         d = box_front rnd b - box_back rnd b
     in case f of Bottom \<Rightarrow> w * d | Top \<Rightarrow> w * d
        | Front \<Rightarrow> w * h | Back \<Rightarrow> w * h
        | Right \<Rightarrow> d * h | Left \<Rightarrow> d * h)"

definition face_distance :: "(real \<Rightarrow> real) \<Rightarrow> Building \<Rightarrow> face \<Rightarrow> real" where
  "face_distance rnd b f =
    (let w = box_right rnd b - box_left rnd b;
         h = box_top rnd b - box_bottom rnd b;
         d = box_front rnd b - box_back rnd b
     in case f of Bottom \<Rightarrow> h / 2 | Top \<Rightarrow> h / 2
        | Front \<Rightarrow> d / 2 | Back \<Rightarrow> d / 2
        | Right \<Rightarrow> w / 2 | Left \<Rightarrow> w / 2)"

section \<open>Properties of generateCity\<close>

declare generateCity_loop.simps [simp del]
declare createBuildingBuffers_loop.simps [simp del]

lemma generateCity_loop_stop:
  "\<not> i < n \<Longrightarrow> generateCity_loop sample n i rng bs = (bs, rng)"
  by (subst generateCity_loop.simps) simp

lemma generateCity_loop_step:
  "i < n \<Longrightarrow> generateCity_loop sample n i rng bs =
     generateCity_loop sample n (i + 1) (snd (generateCity_body sample i rng))
       (bs @ [fst (generateCity_body sample i rng)])"
  by (subst generateCity_loop.simps) (simp add: Let_def)

lemma generateCity_loop_append:
  "fst (generateCity_loop sample n i rng bs) = bs @ fst (generateCity_loop sample n i rng [])"
proof (induction "nat (n - i)" arbitrary: i rng bs)
  case 0
  then have "\<not> i < n" by simp
  then show ?case by (simp add: generateCity_loop_stop)
next
  case (Suc m)
  then have lt: "i < n" and m: "m = nat (n - (i + 1))" by simp_all
  let ?b = "fst (generateCity_body sample i rng)"
  let ?g = "snd (generateCity_body sample i rng)"
  have "fst (generateCity_loop sample n i rng bs) =
        fst (generateCity_loop sample n (i + 1) ?g (bs @ [?b]))"
    using lt by (simp add: generateCity_loop_step)
  also have "\<dots> = (bs @ [?b]) @ fst (generateCity_loop sample n (i + 1) ?g [])"
    using Suc.hyps(1) [OF m] .
  also have "\<dots> = bs @ fst (generateCity_loop sample n (i + 1) ?g ([] @ [?b]))"
    using Suc.hyps(1) [OF m, of ?g "[] @ [?b]"] by simp
  also have "\<dots> = bs @ fst (generateCity_loop sample n i rng [])"
    using lt by (simp add: generateCity_loop_step)
  finally show ?case .
qed

lemma generateCity_loop_length:
  "length (fst (generateCity_loop sample n i rng bs)) = length bs + nat (n - i)"
proof (induction "nat (n - i)" arbitrary: i rng bs)
  case 0
  then have "\<not> i < n" by simp
  then show ?case by (simp add: generateCity_loop_stop)
next
  case (Suc m)
  then have lt: "i < n" and m: "m = nat (n - (i + 1))" by simp_all
  show ?case
    using lt Suc.hyps(1) [OF m] by (simp add: generateCity_loop_step)
qed

lemma generateCity_loop_nth:
  "j < nat (n - i) \<Longrightarrow>
   \<exists>g. fst (generateCity_loop sample n i rng bs) ! (length bs + j) =
        fst (generateCity_body sample (i + int j) g)"
proof (induction "nat (n - i)" arbitrary: i rng bs j)
  case 0
  then show ?case by simp
next
  case (Suc m)
  then have lt: "i < n" and m: "m = nat (n - (i + 1))" by simp_all
  let ?b = "fst (generateCity_body sample i rng)"
  let ?g = "snd (generateCity_body sample i rng)"
  have step: "fst (generateCity_loop sample n i rng bs) =
        (bs @ [?b]) @ fst (generateCity_loop sample n (i + 1) ?g [])"
    using lt generateCity_loop_append [of sample n "i + 1" ?g "bs @ [?b]"]
    by (simp add: generateCity_loop_step)
  show ?case
  proof (cases j)
    case 0
    then show ?thesis by (auto simp: step nth_append)
  next
    case (Suc j')
    then have "j' < nat (n - (i + 1))" using Suc.prems by simp
    from Suc.hyps(1) [OF m this, of ?g "bs @ [?b]"]
    obtain g where "fst (generateCity_loop sample n (i + 1) ?g (bs @ [?b])) ! (length (bs @ [?b]) + j')
        = fst (generateCity_body sample (i + 1 + int j') g)" by blast
    then show ?thesis using lt Suc by (auto simp: generateCity_loop_step add.commute add.left_commute intro!: exI [of _ g])
  qed
qed

lemma draws_in_range_quarter: "draws_in_range quarter_sample"
proof -
  have h: "\<forall>g. lo \<le> lo + (hi - lo) * (real (g mod 5) / 4) \<and>
      lo + (hi - lo) * (real (g mod 5) / 4) \<le> hi"
    if "lo \<le> hi" for lo hi :: real
  proof
    fix g :: nat
    have "g mod 5 \<le> 4" by simp
    then have t: "0 \<le> real (g mod 5) / 4" "real (g mod 5) / 4 \<le> 1" by simp_all
    have d: "0 \<le> hi - lo" using that by simp
    have "(hi - lo) * (real (g mod 5) / 4) \<le> hi - lo"
      using mult_left_le [OF t(2) d] .
    moreover have "0 \<le> (hi - lo) * (real (g mod 5) / 4)"
      using d t(1) by (rule mult_nonneg_nonneg)
    ultimately show "lo \<le> lo + (hi - lo) * (real (g mod 5) / 4) \<and>
        lo + (hi - lo) * (real (g mod 5) / 4) \<le> hi"
      by linarith
  qed
  have q: "\<forall>g. fst d \<le> fst (quarter_sample d g) \<and> fst (quarter_sample d g) \<le> snd d"
    if "fst d \<le> snd d" for d
    using h [OF that] by (simp add: quarter_sample_def)
  have le: "fst d \<le> snd d" if "d \<in> set distributions" for d
    using that
    by (auto simp: distributions_def posDistX_def posDistZ_def
        sizeDistWidth_def sizeDistDepth_def heightDist_def colorDist_def)
  show ?thesis
    unfolding draws_in_range_def using q [OF le] by blast
qed

lemma generateCity_eq:
  "generateCity sample rng bs N = fst (generateCity_loop sample N 0 rng bs) @ [ground]"
  by (simp add: generateCity_def generateCity_rng_def split_beta)

lemma generateCity_length:
  "length (generateCity sample rng bs N) = length bs + nat N + 1"
  by (simp add: generateCity_eq generateCity_loop_length)

lemma generateCity_nth_new:
  assumes "k < nat N"
  shows "\<exists>g. generateCity sample rng bs N ! (length bs + k) = fst (generateCity_body sample (int k) g)"
proof -
  from assms have "k < nat (N - 0)" by simp
  from generateCity_loop_nth [OF this, of sample rng bs]
  obtain g where g: "fst (generateCity_loop sample N 0 rng bs) ! (length bs + k) =
      fst (generateCity_body sample (int k) g)" by auto
  have "length bs + k < length (fst (generateCity_loop sample N 0 rng bs))"
    using assms by (simp add: generateCity_loop_length)
  then show ?thesis using g by (auto simp: generateCity_eq nth_append)
qed

lemma draws_in_rangeD:
  assumes "draws_in_range sample" and "d \<in> set distributions"
  shows "fst d \<le> fst (sample d g)" and "fst (sample d g) \<le> snd d"
  using assms by (simp_all add: draws_in_range_def)

lemma draws_in_range_bounds:
  assumes "draws_in_range sample"
  shows "- 100 \<le> fst (sample posDistX g)" and "fst (sample posDistX g) \<le> 100"
    and "- 100 \<le> fst (sample posDistZ g)" and "fst (sample posDistZ g) \<le> 100"
    and "5 \<le> fst (sample sizeDistWidth g)" and "fst (sample sizeDistWidth g) \<le> 15"
    and "5 \<le> fst (sample sizeDistDepth g)" and "fst (sample sizeDistDepth g) \<le> 15"
    and "10 \<le> fst (sample heightDist g)" and "fst (sample heightDist g) \<le> 60"
    and "0.2 \<le> fst (sample colorDist g)" and "fst (sample colorDist g) \<le> 0.8"
proof -
  have m: "posDistX \<in> set distributions" "posDistZ \<in> set distributions"
    "sizeDistWidth \<in> set distributions" "sizeDistDepth \<in> set distributions"
    "heightDist \<in> set distributions" "colorDist \<in> set distributions"
    by (simp_all add: distributions_def)
  have f: "fst posDistX = - 100" "snd posDistX = 100" "fst posDistZ = - 100" "snd posDistZ = 100"
    "fst sizeDistWidth = 5" "snd sizeDistWidth = 15" "fst sizeDistDepth = 5"
    "snd sizeDistDepth = 15" "fst heightDist = 10" "snd heightDist = 60"
    "fst colorDist = 0.2" "snd colorDist = 0.8"
    by (simp_all add: posDistX_def posDistZ_def sizeDistWidth_def sizeDistDepth_def
        heightDist_def colorDist_def)
  note d = draws_in_rangeD [OF assms]
  show "- 100 \<le> fst (sample posDistX g)" using d(1) [OF m(1), of g] by (simp only: f)
  show "fst (sample posDistX g) \<le> 100" using d(2) [OF m(1), of g] by (simp only: f)
  show "- 100 \<le> fst (sample posDistZ g)" using d(1) [OF m(2), of g] by (simp only: f)
  show "fst (sample posDistZ g) \<le> 100" using d(2) [OF m(2), of g] by (simp only: f)
  show "5 \<le> fst (sample sizeDistWidth g)" using d(1) [OF m(3), of g] by (simp only: f)
  show "fst (sample sizeDistWidth g) \<le> 15" using d(2) [OF m(3), of g] by (simp only: f)
  show "5 \<le> fst (sample sizeDistDepth g)" using d(1) [OF m(4), of g] by (simp only: f)
  show "fst (sample sizeDistDepth g) \<le> 15" using d(2) [OF m(4), of g] by (simp only: f)
  show "10 \<le> fst (sample heightDist g)" using d(1) [OF m(5), of g] by (simp only: f)
  show "fst (sample heightDist g) \<le> 60" using d(2) [OF m(5), of g] by (simp only: f)
  show "0.2 \<le> fst (sample colorDist g)" using d(1) [OF m(6), of g] by (simp only: f)
  show "fst (sample colorDist g) \<le> 0.8" using d(2) [OF m(6), of g] by (simp only: f)
qed

lemma generateCity_body_geometry:
  fixes sample :: "'g sampler" and i :: int and g :: 'g
  assumes "draws_in_range sample"
  defines "b \<equiv> fst (generateCity_body sample i g)"
  shows "5 \<le> width b" "width b \<le> 15" "5 \<le> depth b" "depth b \<le> 15"
    "10 \<le> height b" "height b \<le> 60"
    "- 100 \<le> vec_x (position b)" "vec_x (position b) \<le> 100"
    "- 100 \<le> vec_z (position b)" "vec_z (position b) \<le> 100"
    "vec_y (position b) = 0"
  unfolding b_def generateCity_body_def
  by (simp_all add: split_beta Let_def draws_in_range_bounds [OF assms(1)])

lemma generateCity_body_color:
  assumes "draws_in_range sample"
  shows "\<exists>c1 c2 c3. 0.2 \<le> c1 \<and> c1 \<le> 0.8 \<and> 0.2 \<le> c2 \<and> c2 \<le> 0.8 \<and> 0.2 \<le> c3 \<and> c3 \<le> 0.8 \<and>
     color (fst (generateCity_body sample i g)) =
       (if i mod 5 = 0 then Vec3 (c1 * 0.5 + 0.5) (c2 * 0.5 + 0.5) (c3 * 0.5 + 0.5)
        else Vec3 (c1 * 0.3) (c2 * 0.3) (c3 * 0.5 + 0.3))"
proof -
  note d = draws_in_range_bounds(11,12) [OF assms]
  show ?thesis
    unfolding generateCity_body_def
    apply (simp only: split_beta Let_def fst_conv snd_conv Building.simps)
    apply (intro exI conjI)
          prefer 7
          apply (rule refl)
         apply (rule d)+
    done
qed

lemma generateCity_frame:
  "generateCity sample rng bs N = bs @ generateCity sample rng [] N"
  using generateCity_loop_append [of sample N 0 rng bs] by (simp add: generateCity_eq)

text \<open>
  Claim C1. Called with a count \<open>N \<ge> 0\<close> on an empty vector, \<open>generateCity\<close> leaves
  exactly \<open>N + 1\<close> descriptors, whatever the random source does. The last one is the
  ground plane: position (0, -0.5, 0), width 250, depth 250, height 1, colour
  (0.1, 0.1, 0.1). For \<open>N = 0\<close> the result is that descriptor alone.
\<close>
theorem generateCity_count_and_ground:
  assumes "0 \<le> N"
  shows "int (length (generateCity sample rng [] N)) = N + 1 \<and>
    last (generateCity sample rng [] N) =
      \<lparr>position = Vec3 0 (-0.5) 0, width = 250, depth = 250, height = 1,
       color = Vec3 0.1 0.1 0.1\<rparr> \<and>
    generateCity sample rng [] 0 =
      [\<lparr>position = Vec3 0 (-0.5) 0, width = 250, depth = 250, height = 1,
        color = Vec3 0.1 0.1 0.1\<rparr>]"
proof -
  have "int (length (generateCity sample rng [] N)) = N + 1"
    using assms by (simp add: generateCity_length)
  moreover have "last (generateCity sample rng [] N) = ground"
    by (simp add: generateCity_eq)
  moreover have "generateCity sample rng [] 0 = [ground]"
    by (simp add: generateCity_eq generateCity_loop_stop)
  ultimately show ?thesis by (simp add: ground_def)
qed

text \<open>The statement at the count 2, and at the count 0 from another seed.\<close>
theorem generateCity_count_and_ground_witness:
  "(0::int) \<le> 2 \<and> length (generateCity quarter_sample 0 [] 2) = 3 \<and>
   last (generateCity quarter_sample 0 [] 2) = ground \<and>
   generateCity quarter_sample 7 [] 0 = [ground]"
  using generateCity_count_and_ground [of 2 quarter_sample 0]
    generateCity_count_and_ground [of 2 quarter_sample 7]
  by (simp add: ground_def)

text \<open>
  Claim C7. When every draw lies between the bounds of its distribution, each descriptor
  before the ground plane (index \<open>k < N\<close>) has width and depth in [5, 15], height in
  [10, 60], x and z in [-100, 100], and y equal to 0.
\<close>
theorem generateCity_geometry_ranges:
  assumes "draws_in_range sample" and "0 \<le> N" and "k < nat N"
  shows "let b = generateCity sample rng [] N ! k in
     5 \<le> width b \<and> width b \<le> 15 \<and> 5 \<le> depth b \<and> depth b \<le> 15 \<and>
     10 \<le> height b \<and> height b \<le> 60 \<and>
     - 100 \<le> vec_x (position b) \<and> vec_x (position b) \<le> 100 \<and>
     - 100 \<le> vec_z (position b) \<and> vec_z (position b) \<le> 100 \<and>
     vec_y (position b) = 0"
proof -
  from generateCity_nth_new [OF assms(3), of sample rng "[]"]
  obtain g where "generateCity sample rng [] N ! k = fst (generateCity_body sample (int k) g)"
    by auto
  then show ?thesis
    using generateCity_body_geometry [OF assms(1), of "int k" g] by (simp add: Let_def)
qed

lemma generateCity_quarter_2:
  "generateCity quarter_sample 0 [] 2 =
    [\<lparr>position = Vec3 (- 100) 0 (- 50), width = 10, depth = 25 / 2,
      height = 60, color = Vec3 (3 / 5) (27 / 40) (3 / 4)\<rparr>,
     \<lparr>position = Vec3 50 0 100, width = 5, depth = 15 / 2, height = 35,
      color = Vec3 (39 / 200) (6 / 25) (2 / 5)\<rparr>,
     ground]"
  by (simp add: generateCity_eq generateCity_loop_step generateCity_loop_stop
      generateCity_body_def quarter_sample_def posDistX_def posDistZ_def sizeDistWidth_def
      sizeDistDepth_def heightDist_def colorDist_def)

text \<open>The second building of a city of two, drawn from the quarter-point source.\<close>
theorem generateCity_geometry_ranges_witness:
  "draws_in_range quarter_sample \<and> (0::int) \<le> 2 \<and> 1 < nat 2 \<and>
   generateCity quarter_sample 0 [] 2 ! 1 =
     \<lparr>position = Vec3 50 0 100, width = 5, depth = 15 / 2, height = 35,
      color = Vec3 (39 / 200) (6 / 25) (2 / 5)\<rparr> \<and>
   (let b = generateCity quarter_sample 0 [] 2 ! 1 in
     5 \<le> width b \<and> width b \<le> 15 \<and> 5 \<le> depth b \<and> depth b \<le> 15 \<and>
     10 \<le> height b \<and> height b \<le> 60 \<and>
     - 100 \<le> vec_x (position b) \<and> vec_x (position b) \<le> 100 \<and>
     - 100 \<le> vec_z (position b) \<and> vec_z (position b) \<le> 100 \<and>
     vec_y (position b) = 0)"
proof -
  have h: "(0::int) \<le> 2" "1 < nat 2" by simp_all
  from generateCity_geometry_ranges [OF draws_in_range_quarter h, of 0]
  show ?thesis
    using draws_in_range_quarter by (simp add: generateCity_quarter_2)
qed

text \<open>
  Claim C8. When every draw lies between the bounds of its distribution, a descriptor
  before the ground plane whose index is a multiple of 5 has the colour
  \<open>(0.5 * c1 + 0.5, 0.5 * c2 + 0.5, 0.5 * c3 + 0.5)\<close> for three values in [0.2, 0.8], so
  each channel is at least 0.5; any other has the colour
  \<open>(0.3 * c1, 0.3 * c2, 0.5 * c3 + 0.3)\<close>, so red and green are at most 0.24 and blue
  is at most 0.8.
\<close>
theorem generateCity_color_palette:
  assumes "draws_in_range sample" and "0 \<le> N" and "k < nat N"
  shows "let c = color (generateCity sample rng [] N ! k) in
     (k mod 5 = 0 \<longrightarrow>
        (\<exists>c1 c2 c3. 0.2 \<le> c1 \<and> c1 \<le> 0.8 \<and> 0.2 \<le> c2 \<and> c2 \<le> 0.8 \<and> 0.2 \<le> c3 \<and> c3 \<le> 0.8 \<and>
           c = Vec3 (0.5 * c1 + 0.5) (0.5 * c2 + 0.5) (0.5 * c3 + 0.5)) \<and>
        0.5 \<le> vec_r c \<and> 0.5 \<le> vec_g c \<and> 0.5 \<le> vec_b c) \<and>
     (k mod 5 \<noteq> 0 \<longrightarrow>
        (\<exists>c1 c2 c3. 0.2 \<le> c1 \<and> c1 \<le> 0.8 \<and> 0.2 \<le> c2 \<and> c2 \<le> 0.8 \<and> 0.2 \<le> c3 \<and> c3 \<le> 0.8 \<and>
           c = Vec3 (0.3 * c1) (0.3 * c2) (0.5 * c3 + 0.3)) \<and>
        vec_r c \<le> 0.24 \<and> vec_g c \<le> 0.24 \<and> vec_b c \<le> 0.8)"
proof -
  from generateCity_nth_new [OF assms(3), of sample rng "[]"]
  obtain g where g: "generateCity sample rng [] N ! k = fst (generateCity_body sample (int k) g)"
    by auto
  from generateCity_body_color [OF assms(1), of "int k" g]
  obtain c1 c2 c3 where r: "0.2 \<le> c1" "c1 \<le> 0.8" "0.2 \<le> c2" "c2 \<le> 0.8" "0.2 \<le> c3" "c3 \<le> 0.8"
    and c: "color (fst (generateCity_body sample (int k) g)) =
       (if int k mod 5 = 0 then Vec3 (c1 * 0.5 + 0.5) (c2 * 0.5 + 0.5) (c3 * 0.5 + 0.5)
        else Vec3 (c1 * 0.3) (c2 * 0.3) (c3 * 0.5 + 0.3))"
    by blast
  have m: "int k mod 5 = 0 \<longleftrightarrow> k mod 5 = 0"
    by presburger
  show ?thesis
  proof (cases "k mod 5 = 0")
    case True
    then have "color (generateCity sample rng [] N ! k) =
        Vec3 (0.5 * c1 + 0.5) (0.5 * c2 + 0.5) (0.5 * c3 + 0.5)"
      using g c m by (simp add: mult.commute)
    then show ?thesis using True r by (auto simp: Let_def)
  next
    case False
    then have "color (generateCity sample rng [] N ! k) =
        Vec3 (0.3 * c1) (0.3 * c2) (0.5 * c3 + 0.3)"
      using g c m by (simp add: mult.commute)
    then show ?thesis using False r by (auto simp: Let_def)
  qed
qed

text \<open>Buildings 5 (bright) and 6 (muted) of a city of seven.\<close>
theorem generateCity_color_palette_witness:
  "draws_in_range quarter_sample \<and> (0::int) \<le> 7 \<and> 5 < nat 7 \<and> 6 < nat 7 \<and>
   (let c = color (generateCity quarter_sample 0 [] 7 ! 5) in
      0.5 \<le> vec_r c \<and> 0.5 \<le> vec_g c \<and> 0.5 \<le> vec_b c) \<and>
   (let c = color (generateCity quarter_sample 0 [] 7 ! 6) in
      vec_r c \<le> 0.24 \<and> vec_g c \<le> 0.24 \<and> vec_b c \<le> 0.8)"
proof -
  have h: "(0::int) \<le> 7" "5 < nat 7" "6 < nat 7" by simp_all
  from generateCity_color_palette [OF draws_in_range_quarter h(1) h(2), of 0]
    generateCity_color_palette [OF draws_in_range_quarter h(1) h(3), of 0]
  show ?thesis using draws_in_range_quarter by (simp add: Let_def)
qed

text \<open>
  Claim C9. \<open>generateCity\<close> does not clear the vector it is given. For \<open>N \<ge> 0\<close> the
  result is the old contents, every element at its old index, followed by what the call
  produces on an empty vector: \<open>N\<close> buildings, each the loop body at its counter, and
  then the ground plane, \<open>N + 1\<close> new elements in all.
\<close>
theorem generateCity_appends:
  assumes "0 \<le> N"
  shows "generateCity sample rng buildings N = buildings @ generateCity sample rng [] N \<and>
     take (length buildings) (generateCity sample rng buildings N) = buildings \<and>
     (\<forall>j < length buildings. generateCity sample rng buildings N ! j = buildings ! j) \<and>
     int (length (generateCity sample rng buildings N)) = int (length buildings) + (N + 1) \<and>
     (\<forall>k < nat N. \<exists>g. generateCity sample rng buildings N ! (length buildings + k) =
        fst (generateCity_body sample (int k) g)) \<and>
     generateCity sample rng buildings N ! (length buildings + nat N) = ground"
proof -
  let ?res = "generateCity sample rng buildings N"
  have a: "?res = buildings @ generateCity sample rng [] N"
    by (rule generateCity_frame)
  have t: "take (length buildings) ?res = buildings"
    by (subst a) simp
  have p: "\<forall>j < length buildings. ?res ! j = buildings ! j"
    by (subst a) (simp add: nth_append)
  have l: "int (length ?res) = int (length buildings) + (N + 1)"
    using assms by (simp add: generateCity_length)
  have n: "\<forall>k < nat N. \<exists>g. ?res ! (length buildings + k) = fst (generateCity_body sample (int k) g)"
    using generateCity_nth_new [of _ N sample rng buildings] by blast
  have "length (fst (generateCity_loop sample N 0 rng buildings)) = length buildings + nat N"
    by (simp add: generateCity_loop_length)
  then have g: "?res ! (length buildings + nat N) = ground"
    by (simp add: generateCity_eq nth_append)
  from a t p l n g show ?thesis by blast
qed

text \<open>A vector that already holds one box, and the count 2.\<close>
theorem generateCity_appends_witness:
  "(0::int) \<le> 2 \<and>
   generateCity quarter_sample 0 [box10 1 1 1] 2 = box10 1 1 1 # generateCity quarter_sample 0 [] 2 \<and>
   generateCity quarter_sample 0 [box10 1 1 1] 2 ! 0 = box10 1 1 1 \<and>
   length (generateCity quarter_sample 0 [box10 1 1 1] 2) = 4 \<and>
   generateCity quarter_sample 0 [box10 1 1 1] 2 ! 3 = ground"
proof -
  have h: "(0::int) \<le> 2" by simp
  from generateCity_appends [OF h, of quarter_sample 0 "[box10 1 1 1]"]
  show ?thesis by (simp add: generateCity_quarter_2)
qed

text \<open>
  Claim C10. With a negative count the loop body never runs: the generator is returned
  as it was seeded, exactly the ground plane is appended, and the call does what the
  call with count 0 does.
\<close>
theorem generateCity_negative_count:
  assumes "N < 0"
  shows "generateCity_rng sample rng buildings N = (buildings @ [ground], rng) \<and>
     generateCity sample rng buildings N = buildings @ [ground] \<and>
     generateCity_rng sample rng buildings N = generateCity_rng sample rng buildings 0"
  using assms by (simp add: generateCity_def generateCity_rng_def generateCity_loop_stop)

text \<open>The count -3, on a vector with one box and on an empty one.\<close>
theorem generateCity_negative_count_witness:
  "(-3::int) < 0 \<and>
   generateCity_rng quarter_sample 0 [box10 1 1 1] (-3) = ([box10 1 1 1, ground], 0) \<and>
   generateCity quarter_sample 0 [] (-3) = [ground] \<and>
   generateCity_rng quarter_sample 0 [] (-3) = generateCity_rng quarter_sample 0 [] 0"
proof -
  have h: "(-3::int) < 0" by simp
  note a = generateCity_negative_count [OF h, of quarter_sample 0 "[box10 1 1 1]"]
  note b = generateCity_negative_count [OF h, of quarter_sample 0 "[]"]
  have 1: "generateCity_rng quarter_sample 0 [box10 1 1 1] (-3) = ([box10 1 1 1, ground], 0)"
    using a by simp
  have 2: "generateCity quarter_sample 0 [] (-3) = [ground]"
    using b by simp
  have 3: "generateCity_rng quarter_sample 0 [] (-3) = generateCity_rng quarter_sample 0 [] 0"
    using b by blast
  from h 1 2 3 show ?thesis by blast
qed

section \<open>Properties of createBuildingBuffers\<close>

lemma length_spec_vertex [simp]: "length (spec_vertex rnd b k) = 6"
  by (simp add: spec_vertex_def Let_def)

lemma length_spec_box [simp]: "length (spec_box rnd b) = 48"
  by (simp add: spec_box_def)

lemma length_spec_indices [simp]: "length (spec_indices base) = 36"
  by (simp add: spec_indices_def local_indices_def faces_def)

lemma body_vertices:
  "fst (createBuildingBuffers_body rnd b vs ix) = vs @ spec_box rnd b"
  by (simp add: createBuildingBuffers_body_def spec_box_def spec_vertex_def Let_def
      box_left_def box_right_def box_bottom_def box_top_def box_back_def box_front_def)

lemma body_indices:
  "snd (createBuildingBuffers_body rnd b vs ix) = ix @ spec_indices (of_nat (length vs div 6))"
  by (simp add: createBuildingBuffers_body_def spec_indices_def local_indices_def faces_def Let_def)

lemma createBuildingBuffers_loop_stop:
  "\<not> i < length bs \<Longrightarrow> createBuildingBuffers_loop rnd bs i vs ix = (vs, ix)"
  by (subst createBuildingBuffers_loop.simps) simp

lemma createBuildingBuffers_loop_step:
  "i < length bs \<Longrightarrow> createBuildingBuffers_loop rnd bs i vs ix =
     createBuildingBuffers_loop rnd bs (i + 1)
       (fst (createBuildingBuffers_body rnd (bs ! i) vs ix))
       (snd (createBuildingBuffers_body rnd (bs ! i) vs ix))"
  by (subst createBuildingBuffers_loop.simps) (simp add: Let_def)

lemma createBuildingBuffers_loop_eq:
  "createBuildingBuffers_loop rnd bs i vs ix =
     (vs @ concat (map (spec_box rnd) (drop i bs)), ix @ spec_all_indices (length vs) (drop i bs))"
proof (induction "length bs - i" arbitrary: i vs ix)
  case 0
  then have "\<not> i < length bs" by simp
  then show ?case by (simp add: createBuildingBuffers_loop_stop)
next
  case (Suc n)
  then have lt: "i < length bs" and n: "n = length bs - (i + 1)" by simp_all
  have d: "drop i bs = bs ! i # drop (Suc i) bs"
    using lt by (simp add: Cons_nth_drop_Suc)
  let ?vi = "createBuildingBuffers_body rnd (bs ! i) vs ix"
  have "createBuildingBuffers_loop rnd bs i vs ix =
      createBuildingBuffers_loop rnd bs (i + 1) (fst ?vi) (snd ?vi)"
    using lt by (rule createBuildingBuffers_loop_step)
  also have "\<dots> = (fst ?vi @ concat (map (spec_box rnd) (drop (i + 1) bs)),
      snd ?vi @ spec_all_indices (length (fst ?vi)) (drop (i + 1) bs))"
    by (rule Suc.hyps(1) [OF n])
  finally show ?case
    by (simp add: d body_vertices body_indices)
qed

lemma createBuildingBuffers_eq:
  "createBuildingBuffers rnd bs vs ix =
     (vs @ concat (map (spec_box rnd) bs), ix @ spec_all_indices (length vs) bs)"
  by (simp add: createBuildingBuffers_def createBuildingBuffers_loop_eq)

lemma length_concat_spec_box [simp]: "length (concat (map (spec_box rnd) bs)) = 48 * length bs"
  by (induction bs) simp_all

lemma length_spec_all_indices [simp]: "length (spec_all_indices n bs) = 36 * length bs"
  by (induction bs arbitrary: n) simp_all

lemma drop_concat_spec_box:
  "j \<le> length bs \<Longrightarrow> drop (48 * j) (concat (map (spec_box rnd) bs)) = concat (map (spec_box rnd) (drop j bs))"
proof (induction bs arbitrary: j)
  case Nil
  then show ?case by simp
next
  case (Cons b bs)
  show ?case
  proof (cases j)
    case 0
    then show ?thesis by simp
  next
    case (Suc j')
    then have "j' \<le> length bs" using Cons.prems by simp
    from Cons.IH [OF this] show ?thesis using Suc by simp
  qed
qed

lemma take_drop_concat_spec_box:
  assumes "j < length bs"
  shows "take 48 (drop (48 * j) (concat (map (spec_box rnd) bs))) = spec_box rnd (bs ! j)"
proof -
  have "drop j bs = bs ! j # drop (Suc j) bs"
    using assms by (simp add: Cons_nth_drop_Suc)
  then show ?thesis using assms by (simp add: drop_concat_spec_box)
qed

lemma drop_spec_all_indices:
  "j \<le> length bs \<Longrightarrow>
   drop (36 * j) (spec_all_indices n bs) = spec_all_indices (n + 48 * j) (drop j bs)"
proof (induction bs arbitrary: j n)
  case Nil
  then show ?case by simp
next
  case (Cons b bs)
  show ?case
  proof (cases j)
    case 0
    then show ?thesis by simp
  next
    case (Suc j')
    then have "j' \<le> length bs" using Cons.prems by simp
    from Cons.IH [OF this, of "n + 48"] show ?thesis using Suc by (simp add: add.assoc)
  qed
qed

lemma take_drop_spec_all_indices:
  assumes "j < length bs"
  shows "take 36 (drop (36 * j) (spec_all_indices n bs)) =
     spec_indices (of_nat ((n + 48 * j) div 6))"
proof -
  have "drop j bs = bs ! j # drop (Suc j) bs"
    using assms by (simp add: Cons_nth_drop_Suc)
  then show ?thesis using assms by (simp add: drop_spec_all_indices)
qed

lemma spec_box_vertex:
  assumes "k < 8"
  shows "take 6 (drop (6 * k) (spec_box rnd b)) = spec_vertex rnd b k"
proof -
  from assms consider "k = 0" | "k = 1" | "k = 2" | "k = 3" | "k = 4" | "k = 5" | "k = 6" | "k = 7"
    by linarith
  then show ?thesis
    by cases (simp_all add: spec_box_def)
qed

text \<open>
  Claim C2. Every building adds exactly 8 vertices of 6 floats. Vertex \<open>k\<close> of building
  \<open>j\<close> is the corner \<open>spec_vertex rnd (buildings ! j) k\<close>, for every rounding \<open>rnd\<close>: the
  corners in the order bottom front-left, bottom front-right, bottom back-right, bottom
  back-left and the same on top, the bottom ones with the colour of the descriptor and
  the top ones with 0.1 added to each channel, not clamped. In exact arithmetic the corner
  is x minus or plus half the width, y minus or plus half the height and z plus or minus
  half the depth, with the colour or the colour plus 0.1. For the box at the origin with width, depth and height 10, vertex 0 is
  \<open>(-5, -5, 5, r, g, b)\<close> and vertex 6 is \<open>(5, 5, -5, r + 0.1, g + 0.1, b + 0.1)\<close>; with
  rounding the same holds when 5 and -5 are floats, the sums being the rounded ones.
\<close>
theorem createBuildingBuffers_vertices:
  assumes "j < length buildings" and "k < 8"
  shows "length (fst (createBuildingBuffers rnd buildings vertices indices)) =
       length vertices + 6 * (8 * length buildings) \<and>
     take 6 (drop (length vertices + 6 * (8 * j + k))
       (fst (createBuildingBuffers rnd buildings vertices indices))) =
       spec_vertex rnd (buildings ! j) k \<and>
     spec_vertex no_rounding d k =
       [if k \<in> {0, 3, 4, 7} then vec_x (position d) - width d / 2
        else vec_x (position d) + width d / 2,
        if 4 \<le> k then vec_y (position d) + height d / 2 else vec_y (position d) - height d / 2,
        if k \<in> {0, 1, 4, 5} then vec_z (position d) + depth d / 2
        else vec_z (position d) - depth d / 2,
        if 4 \<le> k then vec_r (color d) + 0.1 else vec_r (color d),
        if 4 \<le> k then vec_g (color d) + 0.1 else vec_g (color d),
        if 4 \<le> k then vec_b (color d) + 0.1 else vec_b (color d)] \<and>
     vertex_at (fst (createBuildingBuffers no_rounding [box10 r g b] [] [])) 0 =
       [-5, -5, 5, r, g, b] \<and>
     vertex_at (fst (createBuildingBuffers no_rounding [box10 r g b] [] [])) 6 =
       [5, 5, -5, r + 0.1, g + 0.1, b + 0.1] \<and>
     (rnd 5 = 5 \<and> rnd (-5) = -5 \<longrightarrow>
        vertex_at (fst (createBuildingBuffers rnd [box10 r g b] [] [])) 0 =
          [-5, -5, 5, r, g, b] \<and>
        vertex_at (fst (createBuildingBuffers rnd [box10 r g b] [] [])) 6 =
          [5, 5, -5, rnd (r + rnd 0.1), rnd (g + rnd 0.1), rnd (b + rnd 0.1)])"
proof -
  let ?vs = "fst (createBuildingBuffers rnd buildings vertices indices)"
  have vs: "?vs = vertices @ concat (map (spec_box rnd) buildings)"
    by (simp add: createBuildingBuffers_eq)
  have len: "length ?vs = length vertices + 6 * (8 * length buildings)"
    by (simp add: vs)
  have "drop (length vertices + 6 * (8 * j + k)) ?vs =
      drop (6 * k) (drop (48 * j) (concat (map (spec_box rnd) buildings)))"
    by (simp add: vs add.commute)
  then have "take 6 (drop (length vertices + 6 * (8 * j + k)) ?vs) =
      take 6 (drop (6 * k) (take 48 (drop (48 * j) (concat (map (spec_box rnd) buildings)))))"
    using assms(2) by (simp add: drop_take)
  also have "\<dots> = take 6 (drop (6 * k) (spec_box rnd (buildings ! j)))"
    using assms(1) by (simp add: take_drop_concat_spec_box)
  also have "\<dots> = spec_vertex rnd (buildings ! j) k"
    using assms(2) by (rule spec_box_vertex)
  finally have v: "take 6 (drop (length vertices + 6 * (8 * j + k)) ?vs) =
      spec_vertex rnd (buildings ! j) k" .
  have x: "spec_vertex no_rounding d k =
       [if k \<in> {0, 3, 4, 7} then vec_x (position d) - width d / 2
        else vec_x (position d) + width d / 2,
        if 4 \<le> k then vec_y (position d) + height d / 2 else vec_y (position d) - height d / 2,
        if k \<in> {0, 1, 4, 5} then vec_z (position d) + depth d / 2
        else vec_z (position d) - depth d / 2,
        if 4 \<le> k then vec_r (color d) + 0.1 else vec_r (color d),
        if 4 \<le> k then vec_g (color d) + 0.1 else vec_g (color d),
        if 4 \<le> k then vec_b (color d) + 0.1 else vec_b (color d)]"
    by (simp add: spec_vertex_def Let_def no_rounding_def box_left_def box_right_def
        box_bottom_def box_top_def box_back_def box_front_def)
  have e: "vertex_at (fst (createBuildingBuffers f [box10 r g b] [] [])) 0 = [-5, -5, 5, r, g, b] \<and>
      vertex_at (fst (createBuildingBuffers f [box10 r g b] [] [])) 6 =
        [5, 5, -5, f (r + f 0.1), f (g + f 0.1), f (b + f 0.1)]"
    if "f 5 = 5" and "f (-5) = -5" for f
    using that
    by (simp add: createBuildingBuffers_eq vertex_at_def spec_box_def spec_vertex_def box10_def
        box_left_def box_right_def box_bottom_def box_top_def box_back_def box_front_def)
  have n: "vertex_at (fst (createBuildingBuffers no_rounding [box10 r g b] [] [])) 0 =
        [-5, -5, 5, r, g, b] \<and>
      vertex_at (fst (createBuildingBuffers no_rounding [box10 r g b] [] [])) 6 =
        [5, 5, -5, r + 0.1, g + 0.1, b + 0.1]"
    using e [of no_rounding] by (simp add: no_rounding_def)
  from len v x n e [of rnd] show ?thesis by blast
qed

text \<open>
  Vertex 6 of the second of two buildings, a white box, in exact arithmetic: its colour
  channels are 1.1.
\<close>
theorem createBuildingBuffers_vertices_witness:
  "1 < length [ground, box10 1 1 1] \<and> (6::nat) < 8 \<and>
   no_rounding 5 = 5 \<and> no_rounding (-5) = -5 \<and>
   length (fst (createBuildingBuffers no_rounding [ground, box10 1 1 1] [] [])) = 96 \<and>
   take 6 (drop 84 (fst (createBuildingBuffers no_rounding [ground, box10 1 1 1] [] []))) =
     [5, 5, -5, 1.1, 1.1, 1.1] \<and>
   vertex_at (fst (createBuildingBuffers no_rounding [box10 1 1 1] [] [])) 6 =
     [5, 5, -5, 1.1, 1.1, 1.1]"
proof -
  have h: "1 < length [ground, box10 1 1 1]" "(6::nat) < 8" by simp_all
  from createBuildingBuffers_vertices [OF h, where rnd = no_rounding and vertices = "[]"
      and indices = "[]" and d = ground and r = 1 and g = 1 and b = 1]
  show ?thesis
    by (simp add: spec_vertex_def box10_def no_rounding_def box_right_def box_top_def
        box_back_def)
qed

lemma spec_indices_explicit:
  "spec_indices base = map (\<lambda>l. base + l)
     [0, 1, 2, 2, 3, 0, 4, 7, 6, 6, 5, 4, 0, 4, 5, 5, 1, 0,
      1, 5, 6, 6, 2, 1, 2, 6, 7, 7, 3, 2, 3, 7, 4, 4, 0, 3]"
  by (simp add: spec_indices_def local_indices_def faces_def)

lemma indices_block:
  assumes "j < length bs"
  shows "take 36 (drop (length ix + 36 * j) (snd (createBuildingBuffers rnd bs vs ix))) =
     spec_indices (of_nat ((length vs + 48 * j) div 6))"
proof -
  have "drop (length ix + 36 * j) (snd (createBuildingBuffers rnd bs vs ix)) =
      drop (36 * j) (spec_all_indices (length vs) bs)"
    by (simp add: createBuildingBuffers_eq)
  then show ?thesis using assms by (simp add: take_drop_spec_all_indices)
qed

text \<open>
  Claim C3. Every building adds exactly 36 indices. Those of building \<open>j\<close> are its base
  index plus the local numbers, in this order: bottom (0,1,2), (2,3,0); top (4,7,6),
  (6,5,4); front (0,4,5), (5,1,0); right (1,5,6), (6,2,1); back (2,6,7), (7,3,2); left
  (3,7,4), (4,0,3).
\<close>
theorem createBuildingBuffers_indices:
  assumes "j < length buildings"
  shows "length (snd (createBuildingBuffers rnd buildings vertices indices)) =
       length indices + 36 * length buildings \<and>
     (let baseIndex = (of_nat ((length vertices + 48 * j) div 6) :: u32) in
      take 36 (drop (length indices + 36 * j)
        (snd (createBuildingBuffers rnd buildings vertices indices))) =
        [baseIndex + 0, baseIndex + 1, baseIndex + 2, baseIndex + 2, baseIndex + 3, baseIndex + 0,
         baseIndex + 4, baseIndex + 7, baseIndex + 6, baseIndex + 6, baseIndex + 5, baseIndex + 4,
         baseIndex + 0, baseIndex + 4, baseIndex + 5, baseIndex + 5, baseIndex + 1, baseIndex + 0,
         baseIndex + 1, baseIndex + 5, baseIndex + 6, baseIndex + 6, baseIndex + 2, baseIndex + 1,
         baseIndex + 2, baseIndex + 6, baseIndex + 7, baseIndex + 7, baseIndex + 3, baseIndex + 2,
         baseIndex + 3, baseIndex + 7, baseIndex + 4, baseIndex + 4, baseIndex + 0, baseIndex + 3] \<and>
      take 36 (drop (length indices + 36 * j)
        (snd (createBuildingBuffers rnd buildings vertices indices))) = spec_indices baseIndex)"
proof -
  have "length (snd (createBuildingBuffers rnd buildings vertices indices)) =
       length indices + 36 * length buildings"
    by (simp add: createBuildingBuffers_eq)
  moreover note indices_block [OF assms, where ix = indices and vs = vertices]
  ultimately show ?thesis
    by (simp only: Let_def spec_indices_explicit list.map simp_thms)
qed

text \<open>The indices of the second of two buildings: the base index is 8.\<close>
theorem createBuildingBuffers_indices_witness:
  "1 < length [ground, box10 1 1 1] \<and>
   length (snd (createBuildingBuffers no_rounding [ground, box10 1 1 1] [] [])) = 72 \<and>
   take 36 (drop 36 (snd (createBuildingBuffers no_rounding [ground, box10 1 1 1] [] []))) =
     [8, 9, 10, 10, 11, 8, 12, 15, 14, 14, 13, 12, 8, 12, 13, 13, 9, 8,
      9, 13, 14, 14, 10, 9, 10, 14, 15, 15, 11, 10, 11, 15, 12, 12, 8, 11]"
proof -
  have h: "1 < length [ground, box10 1 1 1]" by simp
  from createBuildingBuffers_indices [OF h, where rnd = no_rounding and vertices = "[]"
      and indices = "[]"]
  show ?thesis by (simp add: Let_def)
qed

text \<open>
  Claim C6. For every descriptor and all buffers, whatever their lengths, one pass of the
  loop body keeps what the buffers hold and adds exactly 48 floats (8 vertices) and 36
  indices; if the length of the vertex buffer is a multiple of 6 before the pass, it is
  one after it. For a whole sequence the buffers grow by 48 and 36 per descriptor, so 101
  descriptors, and the result of \<open>generateCity\<close> with count 100 among them, give 808
  vertices and 3636 indices from empty buffers.
\<close>
theorem createBuildingBuffers_sizes:
  "take (length vertices) (fst (createBuildingBuffers_body rnd b vertices indices)) = vertices \<and>
   take (length indices) (snd (createBuildingBuffers_body rnd b vertices indices)) = indices \<and>
   length (fst (createBuildingBuffers_body rnd b vertices indices)) = length vertices + 48 \<and>
   length (snd (createBuildingBuffers_body rnd b vertices indices)) = length indices + 36 \<and>
   (6 dvd length vertices \<longrightarrow>
      6 dvd length (fst (createBuildingBuffers_body rnd b vertices indices))) \<and>
   take (length vertices) (fst (createBuildingBuffers rnd buildings vertices indices)) = vertices \<and>
   take (length indices) (snd (createBuildingBuffers rnd buildings vertices indices)) = indices \<and>
   length (fst (createBuildingBuffers rnd buildings vertices indices)) =
     length vertices + 48 * length buildings \<and>
   length (snd (createBuildingBuffers rnd buildings vertices indices)) =
     length indices + 36 * length buildings \<and>
   (6 dvd length vertices \<longrightarrow>
      6 dvd length (fst (createBuildingBuffers rnd buildings vertices indices))) \<and>
   (length city = 101 \<longrightarrow>
      length (fst (createBuildingBuffers rnd city [] [])) = 6 * 808 \<and>
      length (snd (createBuildingBuffers rnd city [] [])) = 3636) \<and>
   length (fst (createBuildingBuffers rnd (generateCity sample rng [] 100) [] [])) = 6 * 808 \<and>
   length (snd (createBuildingBuffers rnd (generateCity sample rng [] 100) [] [])) = 3636"
proof -
  have d: "6 dvd length vertices + 48" "6 dvd length vertices + 48 * length buildings"
    if "6 dvd length vertices"
    using that by presburger+
  show ?thesis
    using d
    by (simp add: createBuildingBuffers_eq body_vertices body_indices generateCity_length)
qed

text \<open>
  A vertex buffer of 7 floats, which is no multiple of 6; one that already holds a box;
  and the city of 100 buildings drawn from the quarter-point source.
\<close>
theorem createBuildingBuffers_sizes_witness:
  "length (fst (createBuildingBuffers_body no_rounding ground [1, 2, 3, 4, 5, 6, 7] [9])) = 55 \<and>
   length (snd (createBuildingBuffers_body no_rounding ground [1, 2, 3, 4, 5, 6, 7] [9])) = 37 \<and>
   6 dvd length (fst (createBuildingBuffers_body no_rounding ground [] [])) \<and>
   6 dvd length (fst (createBuildingBuffers_body no_rounding ground
     (fst (createBuildingBuffers_body no_rounding ground [] [])) [])) \<and>
   length (generateCity quarter_sample 0 [] 100) = 101 \<and>
   length (fst (createBuildingBuffers no_rounding (generateCity quarter_sample 0 [] 100) [] []))
     = 4848 \<and>
   length (snd (createBuildingBuffers no_rounding (generateCity quarter_sample 0 [] 100) [] []))
     = 3636"
proof -
  have h1: "6 dvd length (fst (createBuildingBuffers_body no_rounding ground [] []))"
    by (simp add: body_vertices)
  have h2: "length (generateCity quarter_sample 0 [] 100) = 101"
    by (simp add: generateCity_length)
  note a = createBuildingBuffers_sizes [where vertices = "[1, 2, 3, 4, 5, 6, 7]"
      and rnd = no_rounding and b = ground and indices = "[9]" and buildings = "[]"
      and city = "[]" and sample = quarter_sample and rng = 0]
  note b = createBuildingBuffers_sizes
    [where vertices = "fst (createBuildingBuffers_body no_rounding ground [] [])"
      and rnd = no_rounding and b = ground and indices = "[]" and buildings = "[]"
      and city = "generateCity quarter_sample 0 [] 100" and sample = quarter_sample and rng = 0]
  from a have 1: "length (fst (createBuildingBuffers_body no_rounding ground [1, 2, 3, 4, 5, 6, 7] [9]))
      = 55" by simp
  from a have 2: "length (snd (createBuildingBuffers_body no_rounding ground [1, 2, 3, 4, 5, 6, 7] [9]))
      = 37" by simp
  from b h1 have 3: "6 dvd length (fst (createBuildingBuffers_body no_rounding ground
      (fst (createBuildingBuffers_body no_rounding ground [] [])) []))" by blast
  from b h2 have 4:
    "length (fst (createBuildingBuffers no_rounding (generateCity quarter_sample 0 [] 100) [] []))
      = 4848"
    "length (snd (createBuildingBuffers no_rounding (generateCity quarter_sample 0 [] 100) [] []))
      = 3636" by simp_all
  from 1 2 h1 3 h2 4 show ?thesis by blast
qed

lemma local_indices_explicit:
  "local_indices = [0, 1, 2, 2, 3, 0, 4, 7, 6, 6, 5, 4, 0, 4, 5, 5, 1, 0,
      1, 5, 6, 6, 2, 1, 2, 6, 7, 7, 3, 2, 3, 7, 4, 4, 0, 3]"
  by (simp add: local_indices_def faces_def)

lemma length_local_indices [simp]: "length local_indices = 36"
  by (simp add: local_indices_explicit)

lemma local_indices_less:
  assumes "l < 36"
  shows "local_indices ! l < 8"
proof -
  have "\<forall>x \<in> set local_indices. x < 8"
    by (simp add: local_indices_explicit)
  moreover have "local_indices ! l \<in> set local_indices"
    using assms by simp
  ultimately show ?thesis by blast
qed

lemma index_value:
  assumes "j < length bs" and "l < 36"
  shows "snd (createBuildingBuffers rnd bs vs ix) ! (length ix + 36 * j + l) =
     of_nat ((length vs + 48 * j) div 6) + of_nat (local_indices ! l)"
proof -
  let ?xs = "snd (createBuildingBuffers rnd bs vs ix)"
  have len: "length ?xs = length ix + 36 * length bs"
    by (simp add: createBuildingBuffers_eq)
  have "36 * j + 36 \<le> 36 * length bs"
    using assms(1) by simp
  then have le: "length ix + 36 * j \<le> length ?xs"
    using len by simp
  have "?xs ! (length ix + 36 * j + l) = take 36 (drop (length ix + 36 * j) ?xs) ! l"
    using assms(2) le by simp
  also have "\<dots> = spec_indices (of_nat ((length vs + 48 * j) div 6)) ! l"
    by (simp only: indices_block [OF assms(1)])
  also have "\<dots> = of_nat ((length vs + 48 * j) div 6) + of_nat (local_indices ! l)"
    using assms(2) by (simp add: spec_indices_def)
  finally show ?thesis .
qed

lemma unat_base_plus_local:
  "unat (of_nat n + of_nat a :: u32) = (n + a) mod 2 ^ 32"
proof -
  have "(of_nat n + of_nat a :: u32) = of_nat (n + a)" by simp
  then show ?thesis by (simp only: unat_of_nat) simp
qed

lemma vertices_before:
  "length (fst (createBuildingBuffers rnd (take j bs) vs ix)) = length vs + 48 * min (length bs) j"
  by (simp add: createBuildingBuffers_eq)

text \<open>
  Claim C5, as the code has it. The loop body takes the base index from the length of
  the vertex buffer before it pushes anything: the number of floats divided by 6, as an
  \<^verbatim>\<open>unsigned int\<close>. For building \<open>j\<close> of a sequence that is the length left by the first
  \<open>j\<close> buildings. From empty buffers the index at place \<open>l\<close> of building \<open>j\<close> is
  \<open>8 * j\<close> plus a local number between 0 and 7, reduced modulo \<open>2 ^ 32\<close>; it lies
  between \<open>8 * j\<close> and \<open>8 * j + 7\<close> as long as \<open>8 * j + 7 < 2 ^ 32\<close>.
\<close>
theorem createBuildingBuffers_base_index:
  assumes "j < length buildings" and "l < 36"
  shows "snd (createBuildingBuffers_body rnd b vertices indices) =
       indices @ map (\<lambda>l. of_nat (length vertices div 6) + of_nat l) local_indices \<and>
     snd (createBuildingBuffers rnd buildings vertices indices) ! (length indices + 36 * j + l) =
       of_nat (length (fst (createBuildingBuffers rnd (take j buildings) vertices indices)) div 6)
         + of_nat (local_indices ! l) \<and>
     unat (snd (createBuildingBuffers rnd buildings [] []) ! (36 * j + l)) =
       (8 * j + local_indices ! l) mod 2 ^ 32 \<and>
     (8 * j + 7 < 2 ^ 32 \<longrightarrow>
        8 * j \<le> unat (snd (createBuildingBuffers rnd buildings [] []) ! (36 * j + l)) \<and>
        unat (snd (createBuildingBuffers rnd buildings [] []) ! (36 * j + l)) \<le> 8 * j + 7)"
proof -
  have a: "snd (createBuildingBuffers_body rnd b vertices indices) =
       indices @ map (\<lambda>l. of_nat (length vertices div 6) + of_nat l) local_indices"
    by (simp add: body_indices spec_indices_def)
  have m: "min (length buildings) j = j"
    using assms(1) by simp
  have b: "snd (createBuildingBuffers rnd buildings vertices indices) ! (length indices + 36 * j + l) =
       of_nat (length (fst (createBuildingBuffers rnd (take j buildings) vertices indices)) div 6)
         + of_nat (local_indices ! l)"
    by (simp only: index_value [OF assms] vertices_before m)
  have "snd (createBuildingBuffers rnd buildings [] []) ! (36 * j + l) =
      (of_nat (8 * j) + of_nat (local_indices ! l) :: u32)"
    using index_value [OF assms, where vs = "[]" and ix = "[]"] by simp
  then have c: "unat (snd (createBuildingBuffers rnd buildings [] []) ! (36 * j + l)) =
       (8 * j + local_indices ! l) mod 2 ^ 32"
    by (simp only: unat_base_plus_local)
  have d: "8 * j \<le> unat (snd (createBuildingBuffers rnd buildings [] []) ! (36 * j + l)) \<and>
        unat (snd (createBuildingBuffers rnd buildings [] []) ! (36 * j + l)) \<le> 8 * j + 7"
    if "8 * j + 7 < 2 ^ 32"
  proof -
    have "local_indices ! l < 8" using assms(2) by (rule local_indices_less)
    then have "8 * j + local_indices ! l < 2 ^ 32" "local_indices ! l \<le> 7"
      using that by simp_all
    then show ?thesis by (simp add: c)
  qed
  from a b c d show ?thesis by blast
qed

text \<open>Index 7 of the second of two buildings is 15.\<close>
theorem createBuildingBuffers_base_index_witness:
  "1 < length [ground, box10 1 1 1] \<and> (7::nat) < 36 \<and>
   snd (createBuildingBuffers no_rounding [ground, box10 1 1 1] [] []) ! 43 = 15 \<and>
   (8::nat) * 1 + 7 < 2 ^ 32 \<and>
   8 \<le> unat (snd (createBuildingBuffers no_rounding [ground, box10 1 1 1] [] []) ! 43) \<and>
   unat (snd (createBuildingBuffers no_rounding [ground, box10 1 1 1] [] []) ! 43) \<le> 15"
proof -
  have h: "1 < length [ground, box10 1 1 1]" "(7::nat) < 36" by simp_all
  from createBuildingBuffers_base_index [OF h, where rnd = no_rounding and b = ground
      and vertices = "[]" and indices = "[]"]
  show ?thesis by (simp add: local_indices_explicit createBuildingBuffers_eq)
qed

text \<open>
  Without the bound the range fails. Building number \<open>2 ^ 29\<close> of a sequence finds
  \<open>48 * 2 ^ 29\<close> floats in the vertex buffer; the quotient \<open>2 ^ 32\<close> does not fit an
  \<^verbatim>\<open>unsigned int\<close>, the base index is 0, and the first index of the building is 0, not
  in the range from \<open>8 * 2 ^ 29\<close>.
\<close>
theorem createBuildingBuffers_base_index_counterexample:
  "unat (snd (createBuildingBuffers no_rounding (replicate (2 ^ 29 + 1) ground) [] []) ! (36 * 2 ^ 29)) = 0 \<and>
   \<not> 8 * 2 ^ 29 \<le>
     unat (snd (createBuildingBuffers no_rounding (replicate (2 ^ 29 + 1) ground) [] []) ! (36 * 2 ^ 29))"
proof -
  define bs where "bs = replicate (2 ^ 29 + 1) ground"
  have j: "2 ^ 29 < length bs" by (simp add: bs_def)
  have l: "(0::nat) < 36" by simp
  have v: "snd (createBuildingBuffers no_rounding bs [] []) ! (36 * 2 ^ 29) =
      (of_nat (8 * 2 ^ 29) + of_nat (local_indices ! 0) :: u32)"
    using index_value [OF j l, where vs = "[]" and ix = "[]" and rnd = no_rounding] by simp
  have "local_indices ! 0 = 0" by (simp add: local_indices_explicit)
  then have "unat (snd (createBuildingBuffers no_rounding bs [] []) ! (36 * 2 ^ 29)) = (8 * 2 ^ 29) mod 2 ^ 32"
    by (simp only: v unat_base_plus_local) simp
  then have "unat (snd (createBuildingBuffers no_rounding bs [] []) ! (36 * 2 ^ 29)) = 0"
    by simp
  then show ?thesis unfolding bs_def by simp
qed

section \<open>Winding of the triangles\<close>

lemma less_12_cases:
  assumes "t < (12::nat)"
  obtains "t = 0" | "t = 1" | "t = 2" | "t = 3" | "t = 4" | "t = 5"
    | "t = 6" | "t = 7" | "t = 8" | "t = 9" | "t = 10" | "t = 11"
  using assms by atomize_elim arith

lemma spec_box_nth:
  assumes "k < 8" and "c < 6"
  shows "spec_box rnd b ! (6 * k + c) = spec_vertex rnd b k ! c"
proof -
  have "6 * k + 6 \<le> 48" using assms(1) by simp
  then have "6 * k \<le> length (spec_box rnd b)" by simp
  then have "spec_box rnd b ! (6 * k + c) = take 6 (drop (6 * k) (spec_box rnd b)) ! c"
    using assms(2) by simp
  then show ?thesis by (simp only: spec_box_vertex [OF assms(1)])
qed

lemma unat_spec_indices_0:
  assumes "l < 36"
  shows "unat (spec_indices 0 ! l) = local_indices ! l"
proof -
  have "local_indices ! l < 8" using assms by (rule local_indices_less)
  then show ?thesis using assms by (simp add: spec_indices_def unat_of_nat)
qed

text \<open>The corners of triangle \<open>t\<close> of a single box, read through the local indices.\<close>

lemma box_corner:
  assumes "t < 12" and "c < 3"
  shows "triangle_corner (spec_box rnd b) (spec_indices 0) (3 * t) c =
     Vec3 (spec_vertex rnd b (local_indices ! (3 * t + c)) ! 0)
          (spec_vertex rnd b (local_indices ! (3 * t + c)) ! 1)
          (spec_vertex rnd b (local_indices ! (3 * t + c)) ! 2)"
proof -
  have l: "3 * t + c < 36" using assms by simp
  then have k: "local_indices ! (3 * t + c) < 8" by (rule local_indices_less)
  have v: "vertex_position (spec_box rnd b) k =
      Vec3 (spec_vertex rnd b k ! 0) (spec_vertex rnd b k ! 1) (spec_vertex rnd b k ! 2)"
    if "k < 8" for k
    using spec_box_nth [OF that, of 0 rnd b] spec_box_nth [OF that, of 1 rnd b]
      spec_box_nth [OF that, of 2 rnd b]
    by (simp add: vertex_position_def)
  show ?thesis
    by (simp only: triangle_corner_def unat_spec_indices_0 [OF l] v [OF k])
qed

lemma box_normal:
  assumes "t < 12"
  shows "triangle_normal (spec_box rnd b) (spec_indices 0) (3 * t) =
     smul (- face_area rnd b (faces ! (t div 2))) (outward (faces ! (t div 2)))"
proof -
  let ?V = "\<lambda>k. Vec3 (spec_vertex rnd b k ! 0) (spec_vertex rnd b k ! 1) (spec_vertex rnd b k ! 2)"
  have n: "triangle_normal (spec_box rnd b) (spec_indices 0) (3 * t) =
      cross (vsub (?V (local_indices ! (3 * t + 1))) (?V (local_indices ! (3 * t))))
            (vsub (?V (local_indices ! (3 * t + 2))) (?V (local_indices ! (3 * t + 1))))"
    using box_corner [OF assms, of 0 rnd b] box_corner [OF assms, of 1 rnd b]
      box_corner [OF assms, of 2 rnd b]
    by (simp add: triangle_normal_def Let_def)
  from assms show ?thesis
    unfolding n
    by (cases t rule: less_12_cases)
      (simp_all add: local_indices_explicit spec_vertex_def cross_def vsub_def smul_def
        faces_def face_area_def algebra_simps)
qed

lemma box_corner_distance:
  assumes "t < 12" and "c < 3"
  shows "dot (outward (faces ! (t div 2)))
      (vsub (triangle_corner (spec_box rnd b) (spec_indices 0) (3 * t) c) (box_centre rnd b)) =
    face_distance rnd b (faces ! (t div 2))"
proof -
  from assms(2) have c: "c = 0 \<or> c = 1 \<or> c = 2" by arith
  from assms(1) show ?thesis
    unfolding box_corner [OF assms]
    by (cases t rule: less_12_cases)
      (insert c, auto simp add: local_indices_explicit spec_vertex_def box_centre_def
        dot_def vsub_def faces_def face_distance_def field_simps)
qed

text \<open>The same corners in the buffers of a whole sequence, behind aligned contents.\<close>

lemma mesh_nth:
  assumes "j < length bs" and "m < 48"
  shows "concat (map (spec_box rnd) bs) ! (48 * j + m) = spec_box rnd (bs ! j) ! m"
proof -
  have "48 * j + 48 \<le> 48 * length bs" using assms(1) by simp
  then have "48 * j \<le> length (concat (map (spec_box rnd) bs))" by simp
  then have "concat (map (spec_box rnd) bs) ! (48 * j + m) =
      take 48 (drop (48 * j) (concat (map (spec_box rnd) bs))) ! m"
    using assms(2) by simp
  then show ?thesis by (simp only: take_drop_concat_spec_box [OF assms(1)])
qed

lemma mesh_vertex_position:
  assumes "j < length bs" and "a < 8" and "6 dvd length vs"
  shows "vertex_position (vs @ concat (map (spec_box rnd) bs)) (length vs div 6 + 8 * j + a) =
     vertex_position (spec_box rnd (bs ! j)) a"
proof -
  have n: "(vs @ concat (map (spec_box rnd) bs)) ! (6 * (length vs div 6 + 8 * j + a) + i) =
      spec_box rnd (bs ! j) ! (6 * a + i)"
    if "i < 3" for i
  proof -
    have m: "6 * a + i < 48" using assms(2) that by simp
    have "6 * (length vs div 6) = length vs" using assms(3) by simp
    then have "6 * (length vs div 6 + 8 * j + a) + i = length vs + (48 * j + (6 * a + i))"
      by (simp add: algebra_simps)
    then show ?thesis
      by (simp only: nth_append_length_plus mesh_nth [OF assms(1) m])
  qed
  from n [of 0] n [of 1] n [of 2] show ?thesis
    by (simp add: vertex_position_def)
qed

lemma mesh_corner:
  assumes "j < length bs" and "t < 12" and "c < 3"
    and "6 dvd length vs" and "length vs div 6 + 8 * j + 7 < 2 ^ 32"
  shows "triangle_corner (fst (createBuildingBuffers rnd bs vs ix))
       (snd (createBuildingBuffers rnd bs vs ix)) (length ix + 36 * j + 3 * t) c =
     triangle_corner (spec_box rnd (bs ! j)) (spec_indices 0) (3 * t) c"
proof -
  have l: "3 * t + c < 36" using assms(2,3) by simp
  have k: "local_indices ! (3 * t + c) < 8" using l by (rule local_indices_less)
  have e: "length ix + 36 * j + 3 * t + c = length ix + 36 * j + (3 * t + c)" by simp
  have q: "(length vs + 48 * j) div 6 = length vs div 6 + 8 * j"
    using assms(4) by (auto elim: dvdE)
  have "snd (createBuildingBuffers rnd bs vs ix) ! (length ix + 36 * j + (3 * t + c)) =
      (of_nat (length vs div 6 + 8 * j) + of_nat (local_indices ! (3 * t + c)) :: u32)"
    by (simp only: index_value [OF assms(1) l] q)
  moreover have "length vs div 6 + 8 * j + local_indices ! (3 * t + c) < 2 ^ 32"
    using k assms(5) by simp
  ultimately have u:
    "unat (snd (createBuildingBuffers rnd bs vs ix) ! (length ix + 36 * j + (3 * t + c))) =
      length vs div 6 + 8 * j + local_indices ! (3 * t + c)"
    by (simp only: unat_base_plus_local) simp
  have v: "fst (createBuildingBuffers rnd bs vs ix) = vs @ concat (map (spec_box rnd) bs)"
    by (simp add: createBuildingBuffers_eq)
  show ?thesis
    unfolding triangle_corner_def e u v unat_spec_indices_0 [OF l]
    by (rule mesh_vertex_position [OF assms(1) k assms(4)])
qed

lemma face_area_pos:
  assumes "box_left rnd b < box_right rnd b" and "box_bottom rnd b < box_top rnd b"
    and "box_back rnd b < box_front rnd b"
  shows "0 < face_area rnd b f"
  using assms by (cases f) (simp_all add: face_area_def)

lemma face_distance_pos:
  assumes "box_left rnd b < box_right rnd b" and "box_bottom rnd b < box_top rnd b"
    and "box_back rnd b < box_front rnd b"
  shows "0 < face_distance rnd b f"
  using assms by (cases f) (simp_all add: face_distance_def)

lemma dot_smul: "dot (smul s a) b = s * dot a b"
  by (simp add: dot_def smul_def algebra_simps)

lemma dot_outward: "dot (outward f) (outward f) = 1"
  by (cases f) (simp_all add: dot_def)

text \<open>In exact arithmetic the emitted box is the box of the descriptor.\<close>

lemma no_rounding_box:
  "box_centre no_rounding b = position b"
  "box_right no_rounding b - box_left no_rounding b = width b"
  "box_top no_rounding b - box_bottom no_rounding b = height b"
  "box_front no_rounding b - box_back no_rounding b = depth b"
  by (simp_all add: box_centre_def box_left_def box_right_def box_bottom_def box_top_def
      box_back_def box_front_def no_rounding_def)

text \<open>
  Why positive width, depth and height are not enough once arithmetic rounds. Single
  precision rounds \<open>2 ^ 25 - 1\<close> and \<open>2 ^ 25 + 1\<close> to \<open>2 ^ 25\<close>. Under any rounding
  that does so, the box of width 2 at \<open>x = 2 ^ 25\<close> is emitted with its left side on its
  right side, and the normal of its first triangle is zero.
\<close>

lemma rounded_box_collapses:
  assumes "rnd 1 = 1" and "rnd (2 ^ 25 - 1) = 2 ^ 25" and "rnd (2 ^ 25 + 1) = 2 ^ 25"
    and "position b = Vec3 (2 ^ 25) 0 0" and "width b = 2"
  shows "box_left rnd b = box_right rnd b"
    and "triangle_normal (fst (createBuildingBuffers rnd [b] [] []))
           (snd (createBuildingBuffers rnd [b] [] [])) 0 = Vec3 0 0 0"
proof -
  show e: "box_left rnd b = box_right rnd b"
    using assms by (simp add: box_left_def box_right_def)
  have "triangle_normal (spec_box rnd b) (spec_indices 0) (3 * 0) =
      smul (- face_area rnd b (faces ! (0 div 2))) (outward (faces ! (0 div 2)))"
    by (rule box_normal) simp
  moreover have "length ([] :: real list) div 6 + 8 * 0 + 7 < (2::nat) ^ 32" by simp
  then have "triangle_corner (fst (createBuildingBuffers rnd [b] [] []))
      (snd (createBuildingBuffers rnd [b] [] [])) (length ([] :: u32 list) + 36 * 0 + 3 * 0) c =
    triangle_corner (spec_box rnd ([b] ! 0)) (spec_indices 0) (3 * 0) c" if "c < 3" for c
    using that by (intro mesh_corner) simp_all
  then have "triangle_normal (fst (createBuildingBuffers rnd [b] [] []))
      (snd (createBuildingBuffers rnd [b] [] [])) 0 =
    triangle_normal (spec_box rnd b) (spec_indices 0) 0"
    by (simp add: triangle_normal_def)
  ultimately show "triangle_normal (fst (createBuildingBuffers rnd [b] [] []))
      (snd (createBuildingBuffers rnd [b] [] [])) 0 = Vec3 0 0 0"
    using e by (simp add: faces_def face_area_def smul_def)
qed

text \<open>
  Claim C4, as the code has it. Take building \<open>j\<close> of a sequence meshed behind a vertex
  buffer whose length is a multiple of 6, with indices that do not wrap. Each of its 12
  triangles has the same winding, and it is the inward one: the normal, the cross product
  of the edges in the order the indices were pushed, is the outward unit vector of the
  triangle's face times minus the area of that face of the emitted box. When the emitted
  box is not collapsed by rounding (left of right, bottom below top, back behind front,
  on the coordinates as they are rounded), the areas are positive: the sign of the normal
  is opposite to the outward direction, and it points from every corner of the triangle
  towards the centre of the emitted box. In exact arithmetic the emitted box is the box
  of the descriptor, and positive width, depth and height are enough.
\<close>
theorem triangles_wound_inward:
  assumes "j < length buildings" and "t < 12"
    and "6 dvd length vertices" and "length vertices div 6 + 8 * j + 7 < 2 ^ 32"
  shows "(let vs = fst (createBuildingBuffers rnd buildings vertices indices);
       ix = snd (createBuildingBuffers rnd buildings vertices indices);
       p = length indices + 36 * j + 3 * t;
       n = triangle_normal vs ix p;
       f = faces ! (t div 2);
       b = buildings ! j
     in n = smul (- face_area rnd b f) (outward f) \<and>
        dot n (outward f) = - face_area rnd b f \<and>
        (box_left rnd b < box_right rnd b \<and> box_bottom rnd b < box_top rnd b \<and>
         box_back rnd b < box_front rnd b \<longrightarrow>
           0 < face_area rnd b f \<and>
           dot n (outward f) < 0 \<and>
           (\<forall>c < 3. dot n (vsub (triangle_corner vs ix p c) (box_centre rnd b)) < 0))) \<and>
     box_centre no_rounding d = position d \<and>
     (0 < width d \<and> 0 < depth d \<and> 0 < height d \<longrightarrow>
        box_left no_rounding d < box_right no_rounding d \<and>
        box_bottom no_rounding d < box_top no_rounding d \<and>
        box_back no_rounding d < box_front no_rounding d)"
proof -
  let ?vs = "fst (createBuildingBuffers rnd buildings vertices indices)"
  let ?ix = "snd (createBuildingBuffers rnd buildings vertices indices)"
  let ?p = "length indices + 36 * j + 3 * t"
  let ?b = "buildings ! j"
  let ?f = "faces ! (t div 2)"
  have c: "triangle_corner ?vs ?ix ?p c =
      triangle_corner (spec_box rnd ?b) (spec_indices 0) (3 * t) c" if "c < 3" for c
    using assms(1,2) that assms(3,4) by (rule mesh_corner)
  have "triangle_normal ?vs ?ix ?p = triangle_normal (spec_box rnd ?b) (spec_indices 0) (3 * t)"
    unfolding triangle_normal_def by (simp only: c)
  then have n: "triangle_normal ?vs ?ix ?p = smul (- face_area rnd ?b ?f) (outward ?f)"
    by (simp only: box_normal [OF assms(2)])
  have o: "dot (triangle_normal ?vs ?ix ?p) (outward ?f) = - face_area rnd ?b ?f"
    by (simp add: n dot_smul dot_outward)
  have s: "0 < face_area rnd ?b ?f \<and>
      dot (triangle_normal ?vs ?ix ?p) (outward ?f) < 0 \<and>
      (\<forall>c < 3. dot (triangle_normal ?vs ?ix ?p)
         (vsub (triangle_corner ?vs ?ix ?p c) (box_centre rnd ?b)) < 0)"
    if e: "box_left rnd ?b < box_right rnd ?b \<and> box_bottom rnd ?b < box_top rnd ?b \<and>
      box_back rnd ?b < box_front rnd ?b"
  proof -
    have a: "0 < face_area rnd ?b ?f"
      using e by (intro face_area_pos) simp_all
    have d: "0 < face_distance rnd ?b ?f"
      using e by (intro face_distance_pos) simp_all
    have "dot (triangle_normal ?vs ?ix ?p)
        (vsub (triangle_corner ?vs ?ix ?p c) (box_centre rnd ?b)) < 0" if "c < 3" for c
    proof -
      have "dot (triangle_normal ?vs ?ix ?p)
          (vsub (triangle_corner ?vs ?ix ?p c) (box_centre rnd ?b)) =
        - face_area rnd ?b ?f * face_distance rnd ?b ?f"
        by (simp only: n c [OF that] dot_smul box_corner_distance [OF assms(2) that])
      then show ?thesis using a d by (simp add: mult_pos_pos)
    qed
    then show ?thesis using a o by simp
  qed
  have x: "box_left no_rounding d < box_right no_rounding d \<and>
      box_bottom no_rounding d < box_top no_rounding d \<and>
      box_back no_rounding d < box_front no_rounding d"
    if "0 < width d \<and> 0 < depth d \<and> 0 < height d"
    using that no_rounding_box(2-4) [of d] by linarith
  from n o s x no_rounding_box(1) [of d] show ?thesis by (simp add: Let_def)
qed

text \<open>
  Triangle 5 (the second of the front face) of a box of side 10 that is meshed in a
  second call, behind the vertices and indices of the ground plane, in exact
  arithmetic: the front face looks along +z, the normal is \<open>(0, 0, -100)\<close>.
\<close>
theorem triangles_wound_inward_witness:
  "0 < length [box10 1 1 1] \<and> (5::nat) < 12 \<and>
   6 dvd length (fst (createBuildingBuffers no_rounding [ground] [] [])) \<and>
   length (fst (createBuildingBuffers no_rounding [ground] [] [])) div 6 + 8 * 0 + 7 < 2 ^ 32 \<and>
   box_left no_rounding ([box10 1 1 1] ! 0) < box_right no_rounding ([box10 1 1 1] ! 0) \<and>
   box_bottom no_rounding ([box10 1 1 1] ! 0) < box_top no_rounding ([box10 1 1 1] ! 0) \<and>
   box_back no_rounding ([box10 1 1 1] ! 0) < box_front no_rounding ([box10 1 1 1] ! 0) \<and>
   triangle_normal
     (fst (createBuildingBuffers no_rounding [box10 1 1 1]
        (fst (createBuildingBuffers no_rounding [ground] [] []))
        (snd (createBuildingBuffers no_rounding [ground] [] []))))
     (snd (createBuildingBuffers no_rounding [box10 1 1 1]
        (fst (createBuildingBuffers no_rounding [ground] [] []))
        (snd (createBuildingBuffers no_rounding [ground] [] []))))
     51 = Vec3 0 0 (- 100) \<and>
   faces ! (5 div 2) = Front"
proof -
  have h: "0 < length [box10 1 1 1]" "(5::nat) < 12"
    "6 dvd length (fst (createBuildingBuffers no_rounding [ground] [] []))"
    "length (fst (createBuildingBuffers no_rounding [ground] [] [])) div 6 + 8 * 0 + 7 < 2 ^ 32"
    "box_left no_rounding ([box10 1 1 1] ! 0) < box_right no_rounding ([box10 1 1 1] ! 0)"
    "box_bottom no_rounding ([box10 1 1 1] ! 0) < box_top no_rounding ([box10 1 1 1] ! 0)"
    "box_back no_rounding ([box10 1 1 1] ! 0) < box_front no_rounding ([box10 1 1 1] ! 0)"
    by (simp_all add: createBuildingBuffers_eq box10_def box_left_def box_right_def
        box_bottom_def box_top_def box_back_def box_front_def no_rounding_def)
  have l: "length (snd (createBuildingBuffers no_rounding [ground] [] [])) = 36"
    by (simp add: createBuildingBuffers_eq)
  from triangles_wound_inward [OF h(1-4), where rnd = no_rounding
      and indices = "snd (createBuildingBuffers no_rounding [ground] [] [])" and d = ground]
  show ?thesis
    using h
    by (simp add: Let_def l faces_def face_area_def smul_def box10_def box_left_def
        box_right_def box_bottom_def box_top_def box_back_def box_front_def no_rounding_def)
qed

text \<open>
  The outward winding fails on the first triangle of the box of side 10, whose
  coordinates are exact in single precision too: it belongs to the bottom face, whose
  outward direction is \<open>(0, -1, 0)\<close>, and its normal is \<open>(0, 100, 0)\<close>.
\<close>
theorem triangles_wound_outward_counterexample:
  "0 < width (box10 1 1 1) \<and> 0 < depth (box10 1 1 1) \<and> 0 < height (box10 1 1 1) \<and>
   faces ! (0 div 2) = Bottom \<and>
   triangle_normal (fst (createBuildingBuffers no_rounding [box10 1 1 1] [] []))
     (snd (createBuildingBuffers no_rounding [box10 1 1 1] [] [])) 0 = Vec3 0 100 0 \<and>
   \<not> 0 < dot (triangle_normal (fst (createBuildingBuffers no_rounding [box10 1 1 1] [] []))
                (snd (createBuildingBuffers no_rounding [box10 1 1 1] [] [])) 0) (outward Bottom)"
  by (simp add: createBuildingBuffers_eq spec_box_def spec_vertex_def spec_indices_def
      local_indices_explicit triangle_normal_def triangle_corner_def vertex_position_def
      cross_def vsub_def dot_def faces_def box10_def box_left_def box_right_def
      box_bottom_def box_top_def box_back_def box_front_def no_rounding_def)

end
